theory Spec2Isabelle
  imports Main "HOL-Library.Word" "HOL-Library.Signed_Division"
begin

section \<open>Errors\<close>

text \<open>
  Go errors are values. Every \<^verbatim>\<open>fmt.Errorf\<close> of the repository is one constructor, carrying
  what the format string is applied to; \<open>ErrExternal\<close> stands for an error handed back by an
  injected capability (the command executor, the desktop sizer, the wallpaper generator).
\<close>

datatype error =
    ErrExternal string
  | ErrSyntax
  | ErrRange
  | ErrCannotParseColor string
  | ErrParseWallpaperForeground error
  | ErrParseWallpaperBackground error
  | ErrDesktopSize error
  | ErrGenerateWallpaper error
  | ErrExec string
  | ErrUnexpectedExecOutput string
  | ErrExecFlash string
  | ErrExecSetDarkMode string

section \<open>cmd/boxer/main.go: ParseColor\<close>

subsection \<open>The regular expression\<close>

text \<open>
  The two regular expressions of the repository are sequences of pieces after the anchor
  \<open>^\<close>: a literal character, an optional literal character, one or more characters of
  a class (\<open>\d+\<close>), a capture group of a fixed number of characters of a class
  (\<open>([0-9a-fA-F]{2})\<close>), a capture group of one or more characters of a class
  (\<open>(\d+)\<close>), and the anchor \<open>$\<close>, which without the \<open>m\<close> flag matches at the end
  of the text only. Matching prefers the optional character and the longest repetition,
  and falls back to skipping the character or to a shorter repetition. \<open>match_pieces\<close>
  returns the captured groups and the text left over; \<open>FindStringSubmatch\<close> returns the
  matched text followed by the groups, or nothing.
\<close>

datatype piece =
    Lit char
  | Opt char
  | Plus "char \<Rightarrow> bool"
  | Group nat "char \<Rightarrow> bool"
  | GroupPlus "char \<Rightarrow> bool"
  | End

fun longest_first :: "(nat \<Rightarrow> 'a option) \<Rightarrow> nat \<Rightarrow> 'a option" where
  "longest_first f 0 = None"
| "longest_first f (Suc n) =
     (case f (Suc n) of Some r \<Rightarrow> Some r | None \<Rightarrow> longest_first f n)"

fun match_pieces :: "piece list \<Rightarrow> string \<Rightarrow> (string list \<times> string) option" where
  "match_pieces [] s = Some ([], s)"
| "match_pieces (End # ps) s = (if s = [] then match_pieces ps s else None)"
| "match_pieces (Lit c # ps) s =
     (case s of
        [] \<Rightarrow> None
      | x # xs \<Rightarrow> if x = c then match_pieces ps xs else None)"
| "match_pieces (Opt c # ps) s =
     (case s of
        [] \<Rightarrow> match_pieces ps s
      | x # xs \<Rightarrow>
          if x = c then
            (case match_pieces ps xs of
               Some r \<Rightarrow> Some r
             | None \<Rightarrow> match_pieces ps s)
          else match_pieces ps s)"
| "match_pieces (Plus cls # ps) s =
     longest_first (\<lambda>n. match_pieces ps (drop n s)) (length (takeWhile cls s))"
| "match_pieces (Group k cls # ps) s =
     (if k \<le> length s \<and> list_all cls (take k s)
      then map_option (\<lambda>(caps, rest). (take k s # caps, rest)) (match_pieces ps (drop k s))
      else None)"
| "match_pieces (GroupPlus cls # ps) s =
     longest_first
       (\<lambda>n. map_option (\<lambda>(caps, rest). (take n s # caps, rest)) (match_pieces ps (drop n s)))
       (length (takeWhile cls s))"

definition FindStringSubmatch :: "piece list \<Rightarrow> string \<Rightarrow> string list option" where
  "FindStringSubmatch re s =
     map_option (\<lambda>(caps, rest). take (length s - length rest) s # caps) (match_pieces re s)"

definition hex_class :: "char \<Rightarrow> bool" where
  "hex_class c =
     (let n = (of_char c :: int)
      in (48 \<le> n \<and> n \<le> 57) \<or> (97 \<le> n \<and> n \<le> 102) \<or> (65 \<le> n \<and> n \<le> 70))"

definition color_regexp :: "piece list" where
  "color_regexp =
     [Opt (CHR ''#''), Group 2 hex_class, Group 2 hex_class, Group 2 hex_class, End]"

subsection \<open>strconv.ParseUint\<close>

text \<open>
  \<open>ParseUint s base bitSize\<close> for an explicit base (no prefix, no underscores): a syntax
  error gives 0, a range error gives the largest value of the bit size. The caller drops
  the error. The \<open>uint64\<close> values are integers here, with the overflow tests of the
  source written out.
\<close>

definition digit_value :: "char \<Rightarrow> int option" where
  "digit_value c =
     (let n = (of_char c :: int)
      in if 48 \<le> n \<and> n \<le> 57 then Some (n - 48)
         else if 97 \<le> n \<and> n \<le> 122 then Some (n - 97 + 10)
         else if 65 \<le> n \<and> n \<le> 90 then Some (n - 65 + 10)
         else None)"

fun parse_loop :: "int \<Rightarrow> int \<Rightarrow> int \<Rightarrow> string \<Rightarrow> int \<times> error option" where
  "parse_loop base maxVal n [] = (n, None)"
| "parse_loop base maxVal n (c # cs) =
     (case digit_value c of
        None \<Rightarrow> (0, Some ErrSyntax)
      | Some d \<Rightarrow>
          if base \<le> d then (0, Some ErrSyntax)
          else if (2 ^ 64 - 1) div base + 1 \<le> n then (maxVal, Some ErrRange)
          else if 2 ^ 64 \<le> n * base + d \<or> maxVal < n * base + d then (maxVal, Some ErrRange)
          else parse_loop base maxVal (n * base + d) cs)"

definition ParseUint :: "string \<Rightarrow> int \<Rightarrow> nat \<Rightarrow> int \<times> error option" where
  "ParseUint s base bitSize =
     (if s = [] then (0, Some ErrSyntax) else parse_loop base (2 ^ bitSize - 1) 0 s)"

subsection \<open>ParseColor\<close>

record RGBA =
  R :: "8 word"
  G :: "8 word"
  B :: "8 word"
  A :: "8 word"

definition RGBA_zero :: RGBA where
  "RGBA_zero = \<lparr>R = 0, G = 0, B = 0, A = 0\<rparr>"

definition ParseColor :: "string \<Rightarrow> RGBA \<times> error option" where
  "ParseColor s =
     (case FindStringSubmatch color_regexp s of
        None \<Rightarrow> (RGBA_zero, Some (ErrCannotParseColor s))
      | Some m \<Rightarrow>
          let r = fst (ParseUint (m ! 1) 16 8);
              g = fst (ParseUint (m ! 2) 16 8);
              b = fst (ParseUint (m ! 3) 16 8)
          in (\<lparr>R = of_int r, G = of_int g, B = of_int b, A = 0xFF\<rparr>, None))"

text \<open>The value of a pair of hexadecimal digits, for stating what the channels hold.\<close>

definition hex_pair :: "char \<Rightarrow> char \<Rightarrow> 8 word" where
  "hex_pair hi lo = of_int (16 * the (digit_value hi) + the (digit_value lo))"

definition six_hex :: "string \<Rightarrow> bool" where
  "six_hex ds = (length ds = 6 \<and> list_all hex_class ds)"

section \<open>The handlers\<close>

subsection \<open>Injected capabilities\<close>

text \<open>
  Everything a handler does goes through functions it is given, so the outside world is a
  state \<open>'w\<close> that those functions read and change. A \<open>CommandExecutor\<close> takes the program,
  its arguments and the text on standard input, and returns the output with an optional
  error. A \<open>Handler\<close> takes the position \<open>i\<close> and the number of steps \<open>n\<close>.
\<close>

type_synonym 'w CommandExecutor =
  "string \<Rightarrow> string list \<Rightarrow> string \<Rightarrow> 'w \<Rightarrow> (string \<times> error option) \<times> 'w"

type_synonym 'w Handler = "int \<Rightarrow> int \<Rightarrow> 'w \<Rightarrow> error option \<times> 'w"

definition OSAScriptPath :: string where
  "OSAScriptPath = ''/usr/bin/osascript''"

subsection \<open>strings.TrimSpace and fmt.Sprintf\<close>

text \<open>
  The scripts are ASCII, so white space is the six ASCII characters Go counts as such.
\<close>

definition isSpace :: "char \<Rightarrow> bool" where
  "isSpace c = ((of_char c :: int) \<in> {9, 10, 11, 12, 13, 32})"

definition TrimSpace :: "string \<Rightarrow> string" where
  "TrimSpace s = rev (dropWhile isSpace (rev (dropWhile isSpace s)))"

text \<open>
  \<open>Sprintf1 ty format a\<close> is \<open>fmt.Sprintf\<close> with one operand of Go type \<open>ty\<close> whose rendering
  under the verbs used here (\<open>%v\<close> on a bool, \<open>%s\<close> on a string) is \<open>a\<close>. The operand
  replaces the first verb; \<open>%%\<close> is a literal percent sign; a format that ends before
  any verb gets Go's marker for an unused operand.
\<close>

fun Sprintf1 :: "string \<Rightarrow> string \<Rightarrow> string \<Rightarrow> string" where
  "Sprintf1 ty [] a = ''%!(EXTRA '' @ ty @ ''='' @ a @ '')''"
| "Sprintf1 ty [c] a =
     (if c = CHR ''%'' then ''%!(NOVERB)'' @ Sprintf1 ty [] a else c # Sprintf1 ty [] a)"
| "Sprintf1 ty (c # v # cs) a =
     (if c = CHR ''%'' then (if v = CHR ''%'' then CHR ''%'' # Sprintf1 ty cs a else a @ cs)
      else c # Sprintf1 ty (v # cs) a)"

definition render_bool :: "bool \<Rightarrow> string" where
  "render_bool b = (if b then ''true'' else ''false'')"

subsection \<open>NewMenuBarHandler\<close>

definition flashDarkModeScript :: string where
  \<open>flashDarkModeScript =
     ''\<newline>'' @
     ''tell application "System Events"\<newline>'' @
     ''  tell appearance preferences\<newline>'' @
     ''    repeat 5 times\<newline>'' @
     ''      set dark mode to true\<newline>'' @
     ''      delay 1\<newline>'' @
     ''      set dark mode to false\<newline>'' @
     ''      delay 1\<newline>'' @
     ''    end repeat\<newline>'' @
     ''  end tell\<newline>'' @
     ''end tell\<newline>''\<close>

definition setDarkModeScript :: string where
  \<open>setDarkModeScript =
     ''\<newline>'' @
     ''tell application "System Events"\<newline>'' @
     ''  tell appearance preferences\<newline>'' @
     ''    set dark mode to %v\<newline>'' @
     ''  end tell\<newline>'' @
     ''end tell\<newline>''\<close>

definition NewMenuBarHandler :: "'w CommandExecutor \<Rightarrow> 'w Handler" where
  "NewMenuBarHandler exec i n w =
     (if i = 0 then
        (case exec OSAScriptPath [] (TrimSpace flashDarkModeScript) w of
           ((b, Some err), w') \<Rightarrow> (Some (ErrExecFlash b), w')
         | ((b, None), w') \<Rightarrow> (None, w'))
      else
        (let darkMode = (i smod 2 = 1);
             src = Sprintf1 ''bool'' (TrimSpace setDarkModeScript) (render_bool darkMode)
         in case exec OSAScriptPath [] src w of
              ((b, Some err), w') \<Rightarrow> (Some (ErrExecSetDarkMode b), w')
            | ((b, None), w') \<Rightarrow> (None, w')))"

text \<open>
  The two texts the menu bar handler is expected to run, written out, and an executor
  that records its calls and fails when told to, for running the handler on.
\<close>

definition flash_text :: string where
  \<open>flash_text =
     ''tell application "System Events"\<newline>'' @
     ''  tell appearance preferences\<newline>'' @
     ''    repeat 5 times\<newline>'' @
     ''      set dark mode to true\<newline>'' @
     ''      delay 1\<newline>'' @
     ''      set dark mode to false\<newline>'' @
     ''      delay 1\<newline>'' @
     ''    end repeat\<newline>'' @
     ''  end tell\<newline>'' @
     ''end tell''\<close>

definition dark_mode_text :: "bool \<Rightarrow> string" where
  \<open>dark_mode_text on =
     ''tell application "System Events"\<newline>'' @
     ''  tell appearance preferences\<newline>'' @
     ''    set dark mode to '' @ (if on then ''true'' else ''false'') @ ''\<newline>'' @
     ''  end tell\<newline>'' @
     ''end tell''\<close>

type_synonym call = "string \<times> string list \<times> string"

definition recording_exec :: "bool \<Rightarrow> (call list) CommandExecutor" where
  "recording_exec fails name args stdin calls =
     ((''out'', if fails then Some (ErrExternal ''exit status 1'') else None),
      calls @ [(name, args, stdin)])"

subsection \<open>NewWallpaperHandler\<close>

text \<open>
  What the handler takes from the platform rather than from its arguments: \<open>os.Stat\<close>
  (whose error is only tested with \<open>os.IsNotExist\<close>), \<open>filepath.Join\<close>, and the floating
  point quotient \<open>float64(i)/float64(n)\<close>, whose type \<open>'f\<close> is left open.
\<close>

datatype stat_result = StatOK | StatNotExist | StatFailed

record ('w, 'f) platform =
  os_Stat :: "string \<Rightarrow> 'w \<Rightarrow> stat_result"
  filepath_Join :: "string \<Rightarrow> string \<Rightarrow> string"
  float_div :: "int \<Rightarrow> int \<Rightarrow> 'f"

type_synonym 'w DesktopSizer =
  "'w CommandExecutor \<Rightarrow> 'w \<Rightarrow> (int \<times> int \<times> error option) \<times> 'w"

type_synonym ('w, 'f) WallpaperGenerator =
  "string \<Rightarrow> int \<Rightarrow> int \<Rightarrow> 'f \<Rightarrow> 'w \<Rightarrow> error option \<times> 'w"

text \<open>
  \<open>%0Nd\<close>: the decimal digits of the absolute value, padded with zeros on the left to the
  width, which a minus sign in front takes one place of.
\<close>

definition digit_char :: "nat \<Rightarrow> char" where
  "digit_char d = char_of (48 + d)"

fun digits10 :: "nat \<Rightarrow> string" where
  "digits10 n = (if n < 10 then [digit_char n] else digits10 (n div 10) @ [digit_char (n mod 10)])"

declare digits10.simps [simp del]

definition fmt_0d :: "nat \<Rightarrow> int \<Rightarrow> string" where
  "fmt_0d wid x =
     (let ds = digits10 (nat \<bar>x\<bar>);
          prec = (if x < 0 then wid - 1 else wid)
      in (if x < 0 then ''-'' else '''') @ replicate (prec - length ds) (CHR ''0'') @ ds)"

definition wallpaper_file :: "int \<Rightarrow> int \<Rightarrow> int \<Rightarrow> int \<Rightarrow> string" where
  "wallpaper_file w h i n =
     ''wallpaper_'' @ fmt_0d 4 w @ ''_'' @ fmt_0d 4 h @ ''_'' @ fmt_0d 2 i @ ''_'' @ fmt_0d 2 n
       @ ''.png''"

definition setWallpaperScript :: string where
  \<open>setWallpaperScript =
     ''\<newline>'' @
     ''tell application "Finder"\<newline>'' @
     ''  set desktop picture to POSIX file "%s"\<newline>'' @
     ''end tell\<newline>''\<close>

definition NewWallpaperHandler ::
  "('w, 'f) platform \<Rightarrow> 'w CommandExecutor \<Rightarrow> 'w DesktopSizer \<Rightarrow> ('w, 'f) WallpaperGenerator
     \<Rightarrow> string \<Rightarrow> 'w Handler" where
  "NewWallpaperHandler pf exec sizer generator path i n w0 =
     (case sizer exec w0 of
        ((w, h, Some err), w1) \<Rightarrow> (Some (ErrDesktopSize err), w1)
      | ((w, h, None), w1) \<Rightarrow>
          (let imgpath = filepath_Join pf path (wallpaper_file w h i n)
           in case (if os_Stat pf imgpath w1 = StatNotExist
                    then generator imgpath w h (float_div pf i n) w1
                    else (None, w1)) of
                (Some err, w2) \<Rightarrow> (Some (ErrGenerateWallpaper err), w2)
              | (None, w2) \<Rightarrow>
                  (case exec OSAScriptPath []
                          (Sprintf1 ''string'' (TrimSpace setWallpaperScript) imgpath) w2 of
                     ((b, Some err), w3) \<Rightarrow> (Some (ErrExec b), w3)
                   | ((b, None), w3) \<Rightarrow> (None, w3))))"

text \<open>
  The script that sets the desktop picture, written out, and a small world to run the
  handler in: the files that exist and the calls made so far.
\<close>

definition wallpaper_text :: "string \<Rightarrow> string" where
  \<open>wallpaper_text imgpath =
     ''tell application "Finder"\<newline>'' @
     ''  set desktop picture to POSIX file "'' @ imgpath @ ''"\<newline>'' @
     ''end tell''\<close>

datatype event = Executed string "string list" string | Generated string int int

record desk =
  files :: "string list"
  events :: "event list"

definition desk_platform :: "(desk, int \<times> int) platform" where
  "desk_platform =
     \<lparr>os_Stat = (\<lambda>p d. if p \<in> set (files d) then StatOK else StatNotExist),
      filepath_Join = (\<lambda>dir name. dir @ ''/'' @ name),
      float_div = (\<lambda>i n. (i, n))\<rparr>"

definition desk_exec :: "desk CommandExecutor" where
  "desk_exec name args stdin d = (('''', None), d\<lparr>events := events d @ [Executed name args stdin]\<rparr>)"

definition desk_sizer :: "desk DesktopSizer" where
  "desk_sizer exec d = ((1440, 900, None), d)"

definition desk_generator :: "(desk, int \<times> int) WallpaperGenerator" where
  "desk_generator p w h pct d =
     (None, d\<lparr>files := p # files d, events := events d @ [Generated p w h]\<rparr>)"

text \<open>
  Notions used to show that the file name determines the four numbers: the number a string
  of digits denotes, the decimal digits, the zero-padded digits and the characters a
  formatted number is made of.
\<close>

definition num_of :: "string \<Rightarrow> nat" where
  "num_of s = foldl (\<lambda>a c. 10 * a + (of_char c - 48)) 0 s"

definition dec_char :: "char \<Rightarrow> bool" where
  "dec_char c = (48 \<le> (of_char c :: nat) \<and> (of_char c :: nat) \<le> 57)"

definition padded :: "nat \<Rightarrow> nat \<Rightarrow> string" where
  "padded prec n = replicate (prec - length (digits10 n)) (CHR ''0'') @ digits10 n"

definition field_char :: "char \<Rightarrow> bool" where
  "field_char c = (dec_char c \<or> c = CHR ''-'')"

section \<open>The scheduler\<close>

subsection \<open>Commands and the ticker\<close>

text \<open>
  A \<open>Command\<close> as the test and \<open>cmd/boxer/main.go\<close> build it. Durations are
  \<open>time.Duration\<close> values, a count of nanoseconds; clock readings are nanoseconds since
  the Unix epoch.
\<close>

record 'w Command =
  Name :: string
  Step :: int
  Interval :: int
  Handler :: "'w Handler"

definition Second :: int where
  "Second = 1000000000"

definition Minute :: int where
  "Minute = 60 * Second"

definition Hour :: int where
  "Hour = 60 * Minute"

text \<open>
  Modelled from the spec: the \<open>Ticker\<close> type, whose declaration is not among the sources.
  The clock source and the ordered commands are the fields the test and \<open>main.go\<close> set;
  \<open>lastObserved\<close> is the hidden state of section 3, the last observed step index of the
  command at each position, absent until that command is first sampled.
\<close>

record 'w Ticker =
  NowFunc :: "'w \<Rightarrow> int"
  Commands :: "'w Command list"
  lastObserved :: "nat \<Rightarrow> int option"

text \<open>
  Modelled from the spec: \<open>boxer.NewTicker\<close>, which is not among the sources. A new
  ticker has no commands and no observation, and reads the system clock, given here as
  a function of the world.
\<close>

definition boxer_NewTicker :: "('w \<Rightarrow> int) \<Rightarrow> 'w Ticker" where
  "boxer_NewTicker time_Now = \<lparr>NowFunc = time_Now, Commands = [], lastObserved = (\<lambda>k. None)\<rparr>"

text \<open>
  Modelled from the spec: the invariant of section 3 on a command's pair of durations.
\<close>

definition valid_command :: "'w Command \<Rightarrow> bool" where
  "valid_command c = (0 < Step c \<and> 0 < Interval c \<and> Interval c mod Step c = 0)"

subsection \<open>Sampling\<close>

text \<open>
  Modelled from the spec: the per-command outcome that a sample returns (step 5 of
  section 4.2), which \<open>Ticker.Tick\<close> (not among the sources) would report. It holds the
  clock reading, the step index computed from it, and, when the effect was invoked, its
  arguments \<open>(i, n)\<close> with its result.
\<close>

record outcome =
  observed :: int
  step_index :: int
  invoked :: "(int \<times> int \<times> error option) option"

text \<open>
  Modelled from the spec: steps 1 to 4 of section 4.2 for one command, which
  \<open>Ticker.Tick\<close> (not among the sources) performs. The step index is the floor of the
  reading over the step, the position is the floored remainder, and the last observed
  index is set whatever the effect returns.
\<close>

definition sample_command ::
  "('w \<Rightarrow> int) \<Rightarrow> 'w Command \<Rightarrow> int option \<Rightarrow> 'w \<Rightarrow> outcome \<times> int option \<times> 'w" where
  "sample_command clock c lst w =
     (let now = clock w;
          stepIndex = now div Step c
      in if lst = None \<or> lst \<noteq> Some stepIndex then
           (let n = Interval c div Step c;
                i = stepIndex mod n;
                (res, w') = Handler c i n w
            in (\<lparr>observed = now, step_index = stepIndex, invoked = Some (i, n, res)\<rparr>,
                Some stepIndex, w'))
         else (\<lparr>observed = now, step_index = stepIndex, invoked = None\<rparr>, lst, w))"

text \<open>
  Modelled from the spec: the loop of section 4.2 over the commands in registration
  order, from position \<open>k\<close> on, collecting the outcome of every command (step 5).
\<close>

fun sample_from ::
  "('w \<Rightarrow> int) \<Rightarrow> nat \<Rightarrow> 'w Command list \<Rightarrow> (nat \<Rightarrow> int option) \<Rightarrow> 'w
     \<Rightarrow> outcome list \<times> (nat \<Rightarrow> int option) \<times> 'w" where
  "sample_from clock k [] lst w = ([], lst, w)"
| "sample_from clock k (c # cs) lst w =
     (case sample_command clock c (lst k) w of
        (out, l, w1) \<Rightarrow>
          (case sample_from clock (Suc k) cs (lst(k := l)) w1 of
             (outs, lst', w2) \<Rightarrow> (out # outs, lst', w2)))"

text \<open>
  Modelled from the spec: \<open>Ticker.Tick\<close>, the sampling operation of section 4.2, which
  is not among the sources.
\<close>

definition Tick :: "'w Ticker \<Rightarrow> 'w \<Rightarrow> outcome list \<times> 'w Ticker \<times> 'w" where
  "Tick t w =
     (case sample_from (NowFunc t) 0 (Commands t) (lastObserved t) w of
        (outs, lst', w') \<Rightarrow> (outs, t\<lparr>lastObserved := lst'\<rparr>, w'))"

text \<open>
  Modelled from the spec: the driver of section 6, which samples again and again while
  the world moves on between two samples (each \<open>f\<close> is what happens before a sample).
  It returns the outcomes of every sample.
\<close>

fun run :: "'w Ticker \<Rightarrow> ('w \<Rightarrow> 'w) list \<Rightarrow> 'w \<Rightarrow> outcome list list \<times> 'w Ticker \<times> 'w" where
  "run t [] w = ([], t, w)"
| "run t (f # fs) w =
     (case Tick t (f w) of
        (outs, t1, w1) \<Rightarrow>
          (case run t1 fs w1 of
             (rest, t2, w2) \<Rightarrow> (outs # rest, t2, w2)))"

subsection \<open>The test of the ticker\<close>

text \<open>
  \<open>TestTicker_Tick\<close>: the mocked clock is the variable \<open>now\<close>, the handler counts its
  calls in \<open>stepN\<close> and those with \<open>i = 0\<close> in \<open>intervalN\<close>.
\<close>

record test_vars =
  now :: int
  stepN :: int
  intervalN :: int

definition date_2000 :: int where
  "date_2000 = 946684800 * Second"

definition test_cmd :: "test_vars Command" where
  "test_cmd =
     \<lparr>Name = [], Step = 1 * Minute, Interval = 15 * Minute,
      Handler = (\<lambda>i n v.
        (None, v\<lparr>stepN := stepN v + 1,
                  intervalN := (if i = 0 then intervalN v + 1 else intervalN v)\<rparr>))\<rparr>"

function test_loop ::
  "int \<Rightarrow> int \<Rightarrow> test_vars Ticker \<Rightarrow> test_vars \<Rightarrow> test_vars Ticker \<times> test_vars" where
  "test_loop start i ticker v =
     (if i \<le> 1 * Hour then
        (case Tick ticker (v\<lparr>now := start + i\<rparr>) of
           (outs, ticker', v') \<Rightarrow> test_loop start (i + 10 * Second) ticker' v')
      else (ticker, v))"
  by pat_completeness auto
termination
  by (relation "measure (\<lambda>(start, i, ticker, v). nat (1 * Hour + 1 - i))")
     (auto simp: Hour_def Minute_def Second_def)

declare test_loop.simps [simp del]

definition TestTicker_Tick :: "int \<times> int" where
  "TestTicker_Tick =
     (let ticker = (boxer_NewTicker (\<lambda>v. 0))\<lparr>NowFunc := now\<rparr>;
          v0 = \<lparr>now = date_2000, stepN = 0, intervalN = 0\<rparr>;
          ticker = ticker\<lparr>Commands := Commands ticker @ [test_cmd]\<rparr>
      in case Tick ticker v0 of
           (outs, ticker, v) \<Rightarrow>
             (case test_loop (now v) 0 ticker v of
                (ticker, v) \<Rightarrow> (stepN v, intervalN v)))"

subsection \<open>Notions for stating the properties of the scheduler\<close>

text \<open>
  The world just before the command at position \<open>k\<close> is sampled, in a sample that starts
  in the world \<open>w\<close>: the commands before it have been sampled.
\<close>

definition world_before :: "'w Ticker \<Rightarrow> nat \<Rightarrow> 'w \<Rightarrow> 'w" where
  "world_before t k w =
     snd (snd (sample_from (NowFunc t) 0 (take k (Commands t)) (lastObserved t) w))"

text \<open>
  A command whose effect always fails, and a ticker that holds it in front of the command
  of the test.
\<close>

definition failing_cmd :: "test_vars Command" where
  "failing_cmd =
     \<lparr>Name = ''failing'', Step = 1 * Minute, Interval = 15 * Minute,
      Handler = (\<lambda>i n v. (Some (ErrExternal ''failed''), v))\<rparr>"

definition two_ticker :: "test_vars Ticker" where
  "two_ticker = \<lparr>NowFunc = now, Commands = [failing_cmd, test_cmd], lastObserved = (\<lambda>k. None)\<rparr>"

definition test_start :: test_vars where
  "test_start = \<lparr>now = date_2000, stepN = 0, intervalN = 0\<rparr>"

text \<open>The parts of what a sample, and a run of samples, returns.\<close>

definition Tick_outcomes :: "'w Ticker \<Rightarrow> 'w \<Rightarrow> outcome list" where
  "Tick_outcomes t w = fst (Tick t w)"

definition Tick_ticker :: "'w Ticker \<Rightarrow> 'w \<Rightarrow> 'w Ticker" where
  "Tick_ticker t w = fst (snd (Tick t w))"

definition run_outcomes :: "'w Ticker \<Rightarrow> ('w \<Rightarrow> 'w) list \<Rightarrow> 'w \<Rightarrow> outcome list list" where
  "run_outcomes t fs w = fst (run t fs w)"

definition run_ticker :: "'w Ticker \<Rightarrow> ('w \<Rightarrow> 'w) list \<Rightarrow> 'w \<Rightarrow> 'w Ticker" where
  "run_ticker t fs w = fst (snd (run t fs w))"


definition Tick_world :: "'w Ticker \<Rightarrow> 'w \<Rightarrow> 'w" where
  "Tick_world t w = snd (snd (Tick t w))"

text \<open>
  The outcomes of the command at position \<open>k\<close> over a run, one for each sample, and the
  step indices at which a list of outcomes reports an invocation.
\<close>

definition history :: "'w Ticker \<Rightarrow> ('w \<Rightarrow> 'w) list \<Rightarrow> 'w \<Rightarrow> nat \<Rightarrow> outcome list" where
  "history t fs w k = map (\<lambda>outs. outs ! k) (run_outcomes t fs w)"




text \<open>A clock that moves on by twenty seconds before each of four samples.\<close>

definition twenty_seconds :: "(test_vars \<Rightarrow> test_vars) list" where
  "twenty_seconds = replicate 4 (\<lambda>v. v\<lparr>now := now v + 20 * Second\<rparr>)"

section \<open>The desktop size\<close>

text \<open>
  \<open>strconv.Atoi\<close>: an optional sign, then \<open>ParseUint\<close> in base 10 on 64 bits; a value that
  does not fit an \<open>int\<close> of 64 bits becomes the nearest bound, with a range error.
\<close>

definition Atoi :: "string \<Rightarrow> int \<times> error option" where
  "Atoi s =
     (if s = [] then (0, Some ErrSyntax)
      else
        (let neg = (hd s = CHR ''-'');
             digits = (if hd s = CHR ''+'' \<or> hd s = CHR ''-'' then tl s else s);
             (un, err) = ParseUint digits 10 64;
             cutoff = 2 ^ 63
         in if err \<noteq> None \<and> err \<noteq> Some ErrRange then (0, err)
            else if \<not> neg \<and> cutoff \<le> un then (cutoff - 1, Some ErrRange)
            else if neg \<and> cutoff < un then (- cutoff, Some ErrRange)
            else (if neg then - un else un, None)))"

definition digit_class :: "char \<Rightarrow> bool" where
  "digit_class c = (48 \<le> (of_char c :: int) \<and> (of_char c :: int) \<le> 57)"

text \<open>\<^verbatim>\<open>^\d+, \d+, (\d+), (\d+)\<close>\<close>

definition size_regexp :: "piece list" where
  "size_regexp =
     [Plus digit_class, Lit (CHR '',''), Lit (CHR '' ''),
      Plus digit_class, Lit (CHR '',''), Lit (CHR '' ''),
      GroupPlus digit_class, Lit (CHR '',''), Lit (CHR '' ''),
      GroupPlus digit_class]"

definition desktopSizeScript :: string where
  \<open>desktopSizeScript =
     ''\<newline>'' @
     ''tell application "Finder"\<newline>'' @
     ''  get bounds of window of desktop\<newline>'' @
     ''end tell\<newline>''\<close>

definition DesktopSize :: "'w DesktopSizer" where
  "DesktopSize exec w0 =
     (case exec OSAScriptPath [] (TrimSpace desktopSizeScript) w0 of
        ((b, Some err), w1) \<Rightarrow> ((0, 0, Some (ErrExec b)), w1)
      | ((b, None), w1) \<Rightarrow>
          (case FindStringSubmatch size_regexp b of
             None \<Rightarrow> ((0, 0, Some (ErrUnexpectedExecOutput b)), w1)
           | Some m \<Rightarrow> ((fst (Atoi (m ! 1)), fst (Atoi (m ! 2)), None), w1)))"

section \<open>cmd/boxer/main.go: NewTicker\<close>

record Config =
  WorkDir :: string
  Wallpaper_Enabled :: bool
  Wallpaper_Step :: int
  Wallpaper_Interval :: int
  Wallpaper_Foreground :: string
  Wallpaper_Background :: string

definition NewConfig :: Config where
  "NewConfig =
     \<lparr>WorkDir = [], Wallpaper_Enabled = False, Wallpaper_Step = 1 * Minute,
      Wallpaper_Interval = 15 * Minute, Wallpaper_Foreground = ''#9AC97C'',
      Wallpaper_Background = ''#534B4D''\<rparr>"

text \<open>
  \<open>NewTicker\<close> of \<open>main.go\<close> is the place where the program registers a command. Besides
  the configuration and the executor of the source it takes what the source reaches for:
  the platform, the system clock that \<open>boxer.NewTicker\<close> installs, and
  \<open>boxer.NewWallpaperGenerator\<close>, whose drawing and encoding of the image are left open.
\<close>

definition NewTicker ::
  "('w, 'f) platform \<Rightarrow> ('w \<Rightarrow> int) \<Rightarrow> (RGBA \<Rightarrow> RGBA \<Rightarrow> ('w, 'f) WallpaperGenerator)
     \<Rightarrow> Config \<Rightarrow> 'w CommandExecutor \<Rightarrow> error + 'w Ticker" where
  "NewTicker pf time_Now NewWallpaperGenerator c exec =
     (let t = boxer_NewTicker time_Now
      in if Wallpaper_Enabled c then
           (case ParseColor (Wallpaper_Foreground c) of
              (foreground, Some err) \<Rightarrow> Inl (ErrParseWallpaperForeground err)
            | (foreground, None) \<Rightarrow>
                (case ParseColor (Wallpaper_Background c) of
                   (background, Some err) \<Rightarrow> Inl (ErrParseWallpaperBackground err)
                 | (background, None) \<Rightarrow>
                     (let generator = NewWallpaperGenerator foreground background
                      in Inr (t\<lparr>Commands := Commands t @
                           [\<lparr>Name = ''wallpaper'',
                             Step = Wallpaper_Step c,
                             Interval = Wallpaper_Interval c,
                             Handler = NewWallpaperHandler pf exec DesktopSize generator
                               (filepath_Join pf (WorkDir c) ''wallpaper'')\<rparr>]\<rparr>))))
         else Inr t)"

text \<open>
  A string that is an optional \<open>#\<close> and six hexadecimal digits; a configuration that
  enables the wallpaper with a step of seven seconds and an interval of fifteen; and the
  ticker that \<open>NewTicker\<close> is asked to make from it in the small world of the wallpaper
  handler, whose clock stands at the epoch.
\<close>

definition hex_color :: "string \<Rightarrow> bool" where
  "hex_color s =
     (six_hex s \<or> (case s of [] \<Rightarrow> False | c # ds \<Rightarrow> c = CHR ''#'' \<and> six_hex ds))"

definition seven_fifteen :: Config where
  "seven_fifteen =
     NewConfig\<lparr>WorkDir := ''/tmp/boxer'', Wallpaper_Enabled := True,
       Wallpaper_Step := 7 * Second, Wallpaper_Interval := 15 * Second\<rparr>"

definition empty_desk :: desk where
  "empty_desk = \<lparr>files = [], events = []\<rparr>"

definition desk_clock :: "desk \<Rightarrow> int" where
  "desk_clock d = 0"

definition desk_NewWallpaperGenerator :: "RGBA \<Rightarrow> RGBA \<Rightarrow> (desk, int \<times> int) WallpaperGenerator" where
  "desk_NewWallpaperGenerator foreground background = desk_generator"

definition seven_fifteen_ticker :: "error + desk Ticker" where
  "seven_fifteen_ticker =
     NewTicker desk_platform desk_clock desk_NewWallpaperGenerator seven_fifteen desk_exec"

definition black_background :: Config where
  "black_background = seven_fifteen\<lparr>Wallpaper_Background := ''black''\<rparr>"

section \<open>Properties of ParseColor\<close>

lemma hex_digit: "hex_class c \<Longrightarrow> \<exists>d. digit_value c = Some d \<and> 0 \<le> d \<and> d < 16"
  by (auto simp: hex_class_def digit_value_def Let_def)

lemma hash_not_hex: "\<not> hex_class (CHR ''#'')"
  by (simp add: hex_class_def)

lemma ParseUint_pair:
  assumes "hex_class a" "hex_class b"
  shows "ParseUint [a, b] 16 8 = (16 * the (digit_value a) + the (digit_value b), None)"
proof -
  obtain x where x: "digit_value a = Some x" "0 \<le> x" "x < 16" using hex_digit[OF assms(1)] by blast
  obtain y where y: "digit_value b = Some y" "0 \<le> y" "y < 16" using hex_digit[OF assms(2)] by blast
  show ?thesis using x y by (simp add: ParseUint_def)
qed

lemma six_hex_iff:
  "six_hex ds \<longleftrightarrow>
     (\<exists>a b c d e f. ds = [a, b, c, d, e, f] \<and> hex_class a \<and> hex_class b \<and> hex_class c
        \<and> hex_class d \<and> hex_class e \<and> hex_class f)"
proof
  assume "six_hex ds"
  then have len: "length ds = 6" and all: "list_all hex_class ds"
    by (simp_all add: six_hex_def)
  from len obtain a b c d e f where "ds = [a, b, c, d, e, f]"
    by (auto simp: eval_nat_numeral length_Suc_conv)
  with all show "\<exists>a b c d e f. ds = [a, b, c, d, e, f] \<and> hex_class a \<and> hex_class b \<and> hex_class c
        \<and> hex_class d \<and> hex_class e \<and> hex_class f" by simp
next
  assume "\<exists>a b c d e f. ds = [a, b, c, d, e, f] \<and> hex_class a \<and> hex_class b \<and> hex_class c
        \<and> hex_class d \<and> hex_class e \<and> hex_class f"
  then show "six_hex ds" by (auto simp: six_hex_def)
qed

lemma group2_Some:
  "match_pieces (Group 2 cls # ps) s = Some r \<longleftrightarrow>
     (\<exists>a b rest caps left. s = a # b # rest \<and> cls a \<and> cls b
        \<and> match_pieces ps rest = Some (caps, left) \<and> r = ([a, b] # caps, left))"
proof (cases s)
  case Nil
  then show ?thesis by simp
next
  case (Cons a s')
  show ?thesis
  proof (cases s')
    case Nil
    with Cons show ?thesis by simp
  next
    case (Cons b rest)
    with \<open>s = a # s'\<close> show ?thesis by auto
  qed
qed

lemma three_groups_Some:
  "match_pieces [Group 2 hex_class, Group 2 hex_class, Group 2 hex_class, End] s = Some r \<longleftrightarrow>
     (\<exists>a b c d e f. s = [a, b, c, d, e, f] \<and> hex_class a \<and> hex_class b \<and> hex_class c
        \<and> hex_class d \<and> hex_class e \<and> hex_class f \<and> r = ([[a, b], [c, d], [e, f]], []))"
  by (simp only: group2_Some) (auto split: if_splits)

lemma color_regexp_Some:
  "match_pieces color_regexp s = Some r \<Longrightarrow>
     \<exists>ds. six_hex ds \<and> (s = ds \<or> s = CHR ''#'' # ds)"
proof -
  assume m: "match_pieces color_regexp s = Some r"
  define g3 where "g3 = [Group 2 hex_class, Group 2 hex_class, Group 2 hex_class, End]"
  have "match_pieces (Opt (CHR ''#'') # g3) s = Some r"
    using m by (simp add: color_regexp_def g3_def)
  then have "match_pieces g3 s = Some r
      \<or> (\<exists>xs. s = CHR ''#'' # xs \<and> match_pieces g3 xs = Some r)"
    by (cases s) (auto split: if_splits option.splits)
  then show ?thesis
    unfolding g3_def three_groups_Some six_hex_iff by blast
qed

lemma color_regexp_plain:
  assumes "hex_class a" "hex_class b" "hex_class c" "hex_class d" "hex_class e" "hex_class f"
  shows "match_pieces color_regexp [a, b, c, d, e, f] = Some ([[a, b], [c, d], [e, f]], [])"
proof -
  have "a \<noteq> CHR ''#''" using assms(1) hash_not_hex by auto
  then show ?thesis using assms by (simp add: color_regexp_def)
qed

lemma color_regexp_hash:
  assumes "hex_class a" "hex_class b" "hex_class c" "hex_class d" "hex_class e" "hex_class f"
  shows "match_pieces color_regexp (CHR ''#'' # [a, b, c, d, e, f])
           = Some ([[a, b], [c, d], [e, f]], [])"
  using assms by (simp add: color_regexp_def)

lemma ParseColor_ok:
  assumes "six_hex ds" and "s = ds \<or> s = CHR ''#'' # ds"
  shows "ParseColor s =
        (\<lparr>R = hex_pair (ds ! 0) (ds ! 1), G = hex_pair (ds ! 2) (ds ! 3),
          B = hex_pair (ds ! 4) (ds ! 5), A = 0xFF\<rparr>, None)"
proof -
  from assms obtain a b c d e f where ds: "ds = [a, b, c, d, e, f]"
    and h: "hex_class a" "hex_class b" "hex_class c" "hex_class d" "hex_class e" "hex_class f"
    unfolding six_hex_iff by blast
  have m: "match_pieces color_regexp s = Some ([[a, b], [c, d], [e, f]], [])"
    using assms(2) ds color_regexp_plain[OF h] color_regexp_hash[OF h] by auto
  show ?thesis
    using h by (simp add: ParseColor_def FindStringSubmatch_def m ds ParseUint_pair hex_pair_def)
qed

lemma ParseColor_fail:
  assumes "\<nexists>ds. six_hex ds \<and> (s = ds \<or> s = CHR ''#'' # ds)"
  shows "ParseColor s = (RGBA_zero, Some (ErrCannotParseColor s))"
proof -
  have "match_pieces color_regexp s = None"
    using assms color_regexp_Some by (cases "match_pieces color_regexp s") blast+
  then show ?thesis
    by (simp add: ParseColor_def FindStringSubmatch_def)
qed

text \<open>
  C9. \<open>ParseColor\<close> succeeds exactly on an optional \<open>#\<close> followed by six hexadecimal
  digits. On success the red, green and blue channels are the values of the three pairs of
  digits and alpha is \<open>0xFF\<close>; on every other string it returns the zero colour together
  with an error.
\<close>

theorem ParseColor_hex:
  "(six_hex ds \<and> (s = ds \<or> s = CHR ''#'' # ds) \<longrightarrow>
      ParseColor s =
        (\<lparr>R = hex_pair (ds ! 0) (ds ! 1), G = hex_pair (ds ! 2) (ds ! 3),
          B = hex_pair (ds ! 4) (ds ! 5), A = 0xFF\<rparr>, None))
   \<and> ((\<nexists>ds. six_hex ds \<and> (s = ds \<or> s = CHR ''#'' # ds)) \<longrightarrow>
      ParseColor s = (RGBA_zero, Some (ErrCannotParseColor s)))"
  using ParseColor_ok [of ds s] ParseColor_fail [of s] by blast

theorem ParseColor_hex_witness:
  "ParseColor ''#9AC97C'' = (\<lparr>R = 0x9A, G = 0xC9, B = 0x7C, A = 0xFF\<rparr>, None)
   \<and> ParseColor ''9AC97'' = (RGBA_zero, Some (ErrCannotParseColor ''9AC97''))"
proof -
  have a: "six_hex ''9AC97C''" by (simp add: six_hex_def hex_class_def)
  have b: "\<nexists>ds. six_hex ds \<and> (''9AC97'' = ds \<or> ''9AC97'' = CHR ''#'' # ds)"
    by (auto simp: six_hex_def)
  show ?thesis
    using ParseColor_hex [of "''9AC97C''" "''#9AC97C''"] ParseColor_hex [of "[]" "''9AC97''"] a b
    by (simp add: hex_pair_def digit_value_def)
qed

section \<open>Properties of the menu bar handler\<close>

lemma trim_flash: "TrimSpace flashDarkModeScript = flash_text"
  by (simp add: TrimSpace_def flashDarkModeScript_def flash_text_def isSpace_def)

lemma dark_src: "Sprintf1 ''bool'' (TrimSpace setDarkModeScript) (render_bool b) = dark_mode_text b"
  by (simp add: TrimSpace_def setDarkModeScript_def dark_mode_text_def isSpace_def render_bool_def)

lemma smod2_odd: "0 \<le> i \<Longrightarrow> (i smod 2 = 1) = odd (i::int)"
  by (simp add: signed_modulo_int_def odd_iff_mod_2_eq_one sgn_if)

text \<open>
  C8. Every call \<open>(i, n)\<close> of the handler made by \<open>NewMenuBarHandler\<close> is one call of the
  executor: what it does to the world is what running one script does, and it returns an
  error exactly when that call fails. The script is the flash script when \<open>i = 0\<close>, and
  for \<open>i > 0\<close> the script that sets dark mode to true when \<open>i\<close> is odd and to false when
  \<open>i\<close> is even.
\<close>

theorem NewMenuBarHandler_one_script:
  "\<exists>script.
     snd (NewMenuBarHandler exec i n w) = snd (exec OSAScriptPath [] script w)
     \<and> (fst (NewMenuBarHandler exec i n w) \<noteq> None)
         = (snd (fst (exec OSAScriptPath [] script w)) \<noteq> None)
     \<and> (i = 0 \<longrightarrow> script = flash_text)
     \<and> (0 < i \<longrightarrow> script = dark_mode_text (odd i))"
proof (cases "i = 0")
  case True
  then show ?thesis
    by (intro exI [of _ flash_text])
       (auto simp: NewMenuBarHandler_def trim_flash split: prod.splits option.splits)
next
  case False
  have "0 < i \<Longrightarrow> (i smod 2 = 1) = odd i"
    by (simp add: smod2_odd)
  with False show ?thesis
    by (intro exI [of _ "dark_mode_text (i smod 2 = 1)"])
       (auto simp: NewMenuBarHandler_def dark_src Let_def split: prod.splits option.splits)
qed

theorem NewMenuBarHandler_one_script_witness:
  "snd (NewMenuBarHandler (recording_exec True) 3 15 []) = [(OSAScriptPath, [], dark_mode_text True)]
   \<and> fst (NewMenuBarHandler (recording_exec True) 3 15 []) \<noteq> None
   \<and> snd (NewMenuBarHandler (recording_exec False) 0 15 []) = [(OSAScriptPath, [], flash_text)]
   \<and> fst (NewMenuBarHandler (recording_exec False) 0 15 []) = None"
  using NewMenuBarHandler_one_script [of "recording_exec True" 3 15 "[]"]
    NewMenuBarHandler_one_script [of "recording_exec False" 0 15 "[]"]
  by (auto simp: recording_exec_def)

section \<open>Properties of the wallpaper handler\<close>

lemma digit_char_values:
  "digit_char 0 = CHR ''0''" "digit_char 1 = CHR ''1''" "digit_char 2 = CHR ''2''"
  "digit_char 3 = CHR ''3''" "digit_char 4 = CHR ''4''" "digit_char 5 = CHR ''5''"
  "digit_char 6 = CHR ''6''" "digit_char 7 = CHR ''7''" "digit_char 8 = CHR ''8''"
  "digit_char 9 = CHR ''9''" "digit_char (Suc 0) = CHR ''1''"
  by code_simp+

lemma wallpaper_src:
  "Sprintf1 ''string'' (TrimSpace setWallpaperScript) p = wallpaper_text p"
  by (simp add: TrimSpace_def setWallpaperScript_def wallpaper_text_def isSpace_def)

lemma num_of_snoc: "num_of (s @ [c]) = 10 * num_of s + (of_char c - 48)"
  by (simp add: num_of_def)

lemma of_char_digit: "d < 10 \<Longrightarrow> (of_char (digit_char d) :: nat) = 48 + d"
  by (simp add: digit_char_def)

lemma num_of_digits10: "num_of (digits10 n) = n"
proof (induction n rule: digits10.induct)
  case (1 n)
  show ?case
  proof (cases "n < 10")
    case True
    then show ?thesis
      by (subst digits10.simps) (simp add: num_of_def of_char_digit)
  next
    case False
    then have "num_of (digits10 (n div 10)) = n div 10" using 1 by simp
    then show ?thesis using False
      by (subst digits10.simps) (simp add: num_of_snoc of_char_digit)
  qed
qed

lemma num_of_zeros: "num_of (replicate k (CHR ''0'') @ s) = num_of s"
proof -
  have "num_of (replicate k (CHR ''0'')) = 0"
  proof (induction k)
    case 0
    show ?case by (simp add: num_of_def)
  next
    case (Suc k)
    have "replicate (Suc k) (CHR ''0'') = replicate k (CHR ''0'') @ ''0''"
      by (simp add: replicate_append_same)
    then show ?case using Suc by (simp only: num_of_snoc) simp
  qed
  then show ?thesis by (simp add: num_of_def)
qed

lemma dec_digit_char: "d < 10 \<Longrightarrow> dec_char (digit_char d)"
  by (simp add: dec_char_def of_char_digit)

lemma digits10_dec: "list_all dec_char (digits10 n)"
proof (induction n rule: digits10.induct)
  case (1 n)
  show ?case
  proof (cases "n < 10")
    case True
    then show ?thesis by (subst digits10.simps) (simp add: dec_digit_char)
  next
    case False
    then show ?thesis using 1 by (subst digits10.simps) (simp add: dec_digit_char)
  qed
qed

lemma digits10_nonempty: "digits10 n \<noteq> []"
  by (subst digits10.simps) simp

lemma padded_dec: "list_all dec_char (padded prec n)"
  using digits10_dec [of n] by (auto simp: padded_def list_all_iff dec_char_def)

lemma padded_nonempty: "padded prec n \<noteq> []"
  by (simp add: padded_def digits10_nonempty)

lemma num_of_padded: "num_of (padded prec n) = n"
  by (simp add: padded_def num_of_zeros num_of_digits10)

lemma fmt_0d_alt:
  "fmt_0d wid x = (if x < 0 then CHR ''-'' # padded (wid - 1) (nat \<bar>x\<bar>) else padded wid (nat \<bar>x\<bar>))"
  by (simp add: fmt_0d_def padded_def Let_def)

lemma hd_padded_not_minus: "hd (padded prec n) \<noteq> CHR ''-''"
proof -
  have "dec_char (hd (padded prec n))"
    using padded_dec [of prec n] padded_nonempty [of prec n]
    by (cases "padded prec n") simp_all
  then show ?thesis by (auto simp: dec_char_def)
qed

lemma fmt_0d_inj: "fmt_0d wid x = fmt_0d wid y \<Longrightarrow> x = y"
proof -
  assume eq: "fmt_0d wid x = fmt_0d wid y"
  have sign: "(x < 0) = (y < 0)"
  proof (rule ccontr)
    assume "(x < 0) \<noteq> (y < 0)"
    then consider "x < 0" "\<not> y < 0" | "\<not> x < 0" "y < 0" by blast
    then show False
    proof cases
      case 1
      then have "hd (padded wid (nat \<bar>y\<bar>)) = CHR ''-''"
        using eq by (simp add: fmt_0d_alt) (metis list.sel(1))
      then show False using hd_padded_not_minus by blast
    next
      case 2
      then have "hd (padded wid (nat \<bar>x\<bar>)) = CHR ''-''"
        using eq by (simp add: fmt_0d_alt)
      then show False using hd_padded_not_minus by blast
    qed
  qed
  have "\<exists>p. padded p (nat \<bar>x\<bar>) = padded p (nat \<bar>y\<bar>)"
    using eq sign by (auto simp: fmt_0d_alt split: if_splits)
  then have "nat \<bar>x\<bar> = nat \<bar>y\<bar>"
    by (metis num_of_padded)
  with sign show "x = y" by (cases "x < 0") auto
qed

lemma fmt_0d_chars: "list_all field_char (fmt_0d wid x)"
  using padded_dec by (auto simp: fmt_0d_alt field_char_def list_all_iff)

lemma sep_not_in_field: "CHR ''_'' \<notin> set (fmt_0d wid x)"
  using fmt_0d_chars [of wid x] by (auto simp: list_all_iff field_char_def dec_char_def)

lemma split_at_sep:
  "sep \<notin> set a \<Longrightarrow> sep \<notin> set a' \<Longrightarrow> a @ sep # r = a' @ sep # r' \<Longrightarrow> a = a' \<and> r = r'"
proof (induction a arbitrary: a')
  case Nil
  then show ?case by (cases a') auto
next
  case (Cons x a)
  then show ?case by (cases a') auto
qed

lemma wallpaper_file_inj:
  assumes "wallpaper_file w h i n = wallpaper_file w' h' i' n'"
  shows "w = w' \<and> h = h' \<and> i = i' \<and> n = n'"
proof -
  let ?s = "CHR ''_''"
  have 1: "fmt_0d 4 w @ ?s # (fmt_0d 4 h @ ?s # (fmt_0d 2 i @ ?s # (fmt_0d 2 n @ ''.png'')))
         = fmt_0d 4 w' @ ?s # (fmt_0d 4 h' @ ?s # (fmt_0d 2 i' @ ?s # (fmt_0d 2 n' @ ''.png'')))"
    using assms by (simp add: wallpaper_file_def)
  from split_at_sep [OF sep_not_in_field sep_not_in_field 1]
  have a: "fmt_0d 4 w = fmt_0d 4 w'"
    and 2: "fmt_0d 4 h @ ?s # (fmt_0d 2 i @ ?s # (fmt_0d 2 n @ ''.png''))
          = fmt_0d 4 h' @ ?s # (fmt_0d 2 i' @ ?s # (fmt_0d 2 n' @ ''.png''))"
    by blast+
  from split_at_sep [OF sep_not_in_field sep_not_in_field 2]
  have b: "fmt_0d 4 h = fmt_0d 4 h'"
    and 3: "fmt_0d 2 i @ ?s # (fmt_0d 2 n @ ''.png'') = fmt_0d 2 i' @ ?s # (fmt_0d 2 n' @ ''.png'')"
    by blast+
  from split_at_sep [OF sep_not_in_field sep_not_in_field 3]
  have c: "fmt_0d 2 i = fmt_0d 2 i'" and 4: "fmt_0d 2 n @ ''.png'' = fmt_0d 2 n' @ ''.png''"
    by blast+
  from 4 have d: "fmt_0d 2 n = fmt_0d 2 n'" by simp
  from a b c d show ?thesis by (blast dest: fmt_0d_inj)
qed

lemma wallpaper_known_size:
  assumes "sizer exec w0 = ((w, h, None), w1)"
  shows "let imgpath = filepath_Join pf path (wallpaper_file w h i n)
         in (os_Stat pf imgpath w1 \<noteq> StatNotExist \<longrightarrow>
               (\<forall>generator.
                  snd (NewWallpaperHandler pf exec sizer generator path i n w0)
                    = snd (exec OSAScriptPath [] (wallpaper_text imgpath) w1)
                  \<and> (fst (NewWallpaperHandler pf exec sizer generator path i n w0) \<noteq> None)
                    = (snd (fst (exec OSAScriptPath [] (wallpaper_text imgpath) w1)) \<noteq> None)))
          \<and> (os_Stat pf imgpath w1 = StatNotExist \<longrightarrow>
               (\<forall>generator.
                  case generator imgpath w h (float_div pf i n) w1 of
                    (Some e, w2) \<Rightarrow>
                      NewWallpaperHandler pf exec sizer generator path i n w0
                        = (Some (ErrGenerateWallpaper e), w2)
                  | (None, w2) \<Rightarrow>
                      snd (NewWallpaperHandler pf exec sizer generator path i n w0)
                        = snd (exec OSAScriptPath [] (wallpaper_text imgpath) w2)))
          \<and> (\<forall>w' h' i' n'.
                wallpaper_file w h i n = wallpaper_file w' h' i' n' \<longrightarrow>
                w = w' \<and> h = h' \<and> i = i' \<and> n = n')"
proof -
  define imgpath where "imgpath = filepath_Join pf path (wallpaper_file w h i n)"
  have present: "snd (NewWallpaperHandler pf exec sizer generator path i n w0)
           = snd (exec OSAScriptPath [] (wallpaper_text imgpath) w1)
        \<and> (fst (NewWallpaperHandler pf exec sizer generator path i n w0) \<noteq> None)
           = (snd (fst (exec OSAScriptPath [] (wallpaper_text imgpath) w1)) \<noteq> None)"
    if "os_Stat pf imgpath w1 \<noteq> StatNotExist" for generator
    using that assms
    by (auto simp: NewWallpaperHandler_def imgpath_def [symmetric] wallpaper_src Let_def
        split: prod.splits option.splits)
  have absent: "case generator imgpath w h (float_div pf i n) w1 of
                    (Some e, w2) \<Rightarrow>
                      NewWallpaperHandler pf exec sizer generator path i n w0
                        = (Some (ErrGenerateWallpaper e), w2)
                  | (None, w2) \<Rightarrow>
                      snd (NewWallpaperHandler pf exec sizer generator path i n w0)
                        = snd (exec OSAScriptPath [] (wallpaper_text imgpath) w2)"
    if "os_Stat pf imgpath w1 = StatNotExist" for generator
    using that assms
    by (auto simp: NewWallpaperHandler_def imgpath_def [symmetric] wallpaper_src Let_def
        split: prod.splits option.splits)
  show ?thesis
    unfolding Let_def imgpath_def [symmetric]
  proof (intro conjI impI allI)
    fix generator
    assume "os_Stat pf imgpath w1 \<noteq> StatNotExist"
    then show "snd (NewWallpaperHandler pf exec sizer generator path i n w0)
           = snd (exec OSAScriptPath [] (wallpaper_text imgpath) w1)"
      and "(fst (NewWallpaperHandler pf exec sizer generator path i n w0) \<noteq> None)
           = (snd (fst (exec OSAScriptPath [] (wallpaper_text imgpath) w1)) \<noteq> None)"
      using present by blast+
  next
    fix generator
    assume "os_Stat pf imgpath w1 = StatNotExist"
    then show "case generator imgpath w h (float_div pf i n) w1 of
                    (Some e, w2) \<Rightarrow>
                      NewWallpaperHandler pf exec sizer generator path i n w0
                        = (Some (ErrGenerateWallpaper e), w2)
                  | (None, w2) \<Rightarrow>
                      snd (NewWallpaperHandler pf exec sizer generator path i n w0)
                        = snd (exec OSAScriptPath [] (wallpaper_text imgpath) w2)"
      by (rule absent)
  next
    fix w' h' i' n'
    assume "wallpaper_file w h i n = wallpaper_file w' h' i' n'"
    then show "w = w'" "h = h'" "i = i'" "n = n'"
      using wallpaper_file_inj by blast+
  qed
qed

text \<open>
  C10. If the desktop size cannot be had, the handler made by \<open>NewWallpaperHandler\<close>
  returns that error, whatever the generator is. Once the desktop size \<open>(w, h)\<close> is
  known, the handler looks at the path built from \<open>w\<close>, \<open>h\<close>, \<open>i\<close> and \<open>n\<close>. If
  \<open>os.Stat\<close> does not report that nothing exists there, the handler does the same
  whatever the generator is (it is not called): it runs the script that sets that file as
  the desktop picture. If nothing exists there, the generator is called on that path
  first. The file name encodes all four values: equal names come from equal numbers.
\<close>

theorem NewWallpaperHandler_cached:
  "(\<forall>err. sizer exec w0 = ((w, h, Some err), w1) \<longrightarrow>
      (\<forall>generator.
         NewWallpaperHandler pf exec sizer generator path i n w0 = (Some (ErrDesktopSize err), w1)))
   \<and> (sizer exec w0 = ((w, h, None), w1) \<longrightarrow>
        (let imgpath = filepath_Join pf path (wallpaper_file w h i n)
         in (os_Stat pf imgpath w1 \<noteq> StatNotExist \<longrightarrow>
               (\<forall>generator.
                  snd (NewWallpaperHandler pf exec sizer generator path i n w0)
                    = snd (exec OSAScriptPath [] (wallpaper_text imgpath) w1)
                  \<and> (fst (NewWallpaperHandler pf exec sizer generator path i n w0) \<noteq> None)
                    = (snd (fst (exec OSAScriptPath [] (wallpaper_text imgpath) w1)) \<noteq> None)))
          \<and> (os_Stat pf imgpath w1 = StatNotExist \<longrightarrow>
               (\<forall>generator.
                  case generator imgpath w h (float_div pf i n) w1 of
                    (Some e, w2) \<Rightarrow>
                      NewWallpaperHandler pf exec sizer generator path i n w0
                        = (Some (ErrGenerateWallpaper e), w2)
                  | (None, w2) \<Rightarrow>
                      snd (NewWallpaperHandler pf exec sizer generator path i n w0)
                        = snd (exec OSAScriptPath [] (wallpaper_text imgpath) w2)))
          \<and> (\<forall>w' h' i' n'.
                wallpaper_file w h i n = wallpaper_file w' h' i' n' \<longrightarrow>
                w = w' \<and> h = h' \<and> i = i' \<and> n = n')))"
proof (intro conjI allI impI)
  fix err generator
  assume "sizer exec w0 = ((w, h, Some err), w1)"
  then show "NewWallpaperHandler pf exec sizer generator path i n w0
           = (Some (ErrDesktopSize err), w1)"
    by (simp add: NewWallpaperHandler_def)
next
  assume "sizer exec w0 = ((w, h, None), w1)"
  then show "let imgpath = filepath_Join pf path (wallpaper_file w h i n)
         in (os_Stat pf imgpath w1 \<noteq> StatNotExist \<longrightarrow>
               (\<forall>generator.
                  snd (NewWallpaperHandler pf exec sizer generator path i n w0)
                    = snd (exec OSAScriptPath [] (wallpaper_text imgpath) w1)
                  \<and> (fst (NewWallpaperHandler pf exec sizer generator path i n w0) \<noteq> None)
                    = (snd (fst (exec OSAScriptPath [] (wallpaper_text imgpath) w1)) \<noteq> None)))
          \<and> (os_Stat pf imgpath w1 = StatNotExist \<longrightarrow>
               (\<forall>generator.
                  case generator imgpath w h (float_div pf i n) w1 of
                    (Some e, w2) \<Rightarrow>
                      NewWallpaperHandler pf exec sizer generator path i n w0
                        = (Some (ErrGenerateWallpaper e), w2)
                  | (None, w2) \<Rightarrow>
                      snd (NewWallpaperHandler pf exec sizer generator path i n w0)
                        = snd (exec OSAScriptPath [] (wallpaper_text imgpath) w2)))
          \<and> (\<forall>w' h' i' n'.
                wallpaper_file w h i n = wallpaper_file w' h' i' n' \<longrightarrow>
                w = w' \<and> h = h' \<and> i = i' \<and> n = n')"
    by (rule wallpaper_known_size)
qed

theorem NewWallpaperHandler_cached_witness:
  "events (snd (NewWallpaperHandler desk_platform desk_exec desk_sizer desk_generator ''/tmp/w'' 3 15
       \<lparr>files = [''/tmp/w/wallpaper_1440_0900_03_15.png''], events = []\<rparr>))
     = [Executed OSAScriptPath [] (wallpaper_text ''/tmp/w/wallpaper_1440_0900_03_15.png'')]
   \<and> events (snd (NewWallpaperHandler desk_platform desk_exec desk_sizer desk_generator ''/tmp/w'' 3 15
       \<lparr>files = [], events = []\<rparr>))
     = [Generated ''/tmp/w/wallpaper_1440_0900_03_15.png'' 1440 900,
        Executed OSAScriptPath [] (wallpaper_text ''/tmp/w/wallpaper_1440_0900_03_15.png'')]"
proof -
  have name: "wallpaper_file 1440 900 3 15 = ''wallpaper_1440_0900_03_15.png''"
    by (simp add: wallpaper_file_def fmt_0d_def digits10.simps digit_char_values)
  have s1: "desk_sizer desk_exec \<lparr>files = [''/tmp/w/wallpaper_1440_0900_03_15.png''], events = []\<rparr>
        = ((1440, 900, None), \<lparr>files = [''/tmp/w/wallpaper_1440_0900_03_15.png''], events = []\<rparr>)"
    by (simp add: desk_sizer_def)
  have s2: "desk_sizer desk_exec \<lparr>files = [], events = []\<rparr>
        = ((1440, 900, None), \<lparr>files = [], events = []\<rparr>)"
    by (simp add: desk_sizer_def)
  let ?p = "''/tmp/w/wallpaper_1440_0900_03_15.png''"
  let ?d1 = "\<lparr>files = [?p], events = []\<rparr>"
  let ?d2 = "\<lparr>files = [], events = []\<rparr>"
  have p: "filepath_Join desk_platform ''/tmp/w'' (wallpaper_file 1440 900 3 15) = ?p"
    by (simp add: name desk_platform_def)
  have there: "os_Stat desk_platform ?p ?d1 \<noteq> StatNotExist"
    and missing: "os_Stat desk_platform ?p ?d2 = StatNotExist"
    by (simp_all add: desk_platform_def)
  have "snd (NewWallpaperHandler desk_platform desk_exec desk_sizer desk_generator ''/tmp/w'' 3 15 ?d1)
      = snd (desk_exec OSAScriptPath [] (wallpaper_text ?p) ?d1)"
    using NewWallpaperHandler_cached [where sizer = desk_sizer and exec = desk_exec
        and pf = desk_platform and path = "''/tmp/w''" and i = 3 and n = 15, THEN conjunct2, THEN mp, OF s1] there
    unfolding Let_def p by blast
  then have 1: "events (snd (NewWallpaperHandler desk_platform desk_exec desk_sizer desk_generator
        ''/tmp/w'' 3 15 ?d1)) = [Executed OSAScriptPath [] (wallpaper_text ?p)]"
    by (simp add: desk_exec_def)
  have "case desk_generator ?p 1440 900 (float_div desk_platform 3 15) ?d2 of
          (Some e, w2) \<Rightarrow>
            NewWallpaperHandler desk_platform desk_exec desk_sizer desk_generator ''/tmp/w'' 3 15 ?d2
              = (Some (ErrGenerateWallpaper e), w2)
        | (None, w2) \<Rightarrow>
            snd (NewWallpaperHandler desk_platform desk_exec desk_sizer desk_generator ''/tmp/w'' 3 15 ?d2)
              = snd (desk_exec OSAScriptPath [] (wallpaper_text ?p) w2)"
    by (rule NewWallpaperHandler_cached [where sizer = desk_sizer and exec = desk_exec
        and pf = desk_platform and path = "''/tmp/w''" and i = 3 and n = 15, THEN conjunct2, THEN mp, OF s2,
        unfolded Let_def p, THEN conjunct2, THEN conjunct1, rule_format, OF missing])
  then have 2: "events (snd (NewWallpaperHandler desk_platform desk_exec desk_sizer desk_generator
        ''/tmp/w'' 3 15 ?d2)) = [Generated ?p 1440 900, Executed OSAScriptPath [] (wallpaper_text ?p)]"
    by (simp add: desk_generator_def desk_exec_def)
  from 1 2 show ?thesis by simp
qed

section \<open>Properties of the scheduler\<close>

text \<open>
  C1. With a step of one minute and an interval of fifteen minutes, a clock that starts at
  2000-01-01T00:00:00Z, one sample at the start and then one sample after each advance of
  ten seconds up to and including one hour later, the effect is invoked 61 times in all,
  5 of them with \<open>i = 0\<close>.
\<close>

theorem TestTicker_Tick_counts: "TestTicker_Tick = (61, 5)"
  by code_simp

lemma sample_command_outcome:
  assumes "sample_command clock c lst w = (out, l, w')"
  shows "observed out = clock w"
    and "step_index out = clock w div Step c"
    and "l = Some (step_index out)"
    and "(invoked out \<noteq> None) = (lst \<noteq> Some (step_index out))"
    and "invoked out = None \<Longrightarrow> w' = w"
    and "invoked out \<noteq> None \<Longrightarrow>
           invoked out = Some (step_index out mod (Interval c div Step c), Interval c div Step c,
             fst (Handler c (step_index out mod (Interval c div Step c)) (Interval c div Step c) w))
           \<and> w' = snd (Handler c (step_index out mod (Interval c div Step c)) (Interval c div Step c) w)"
  using assms
  by (auto simp: sample_command_def Let_def split: if_splits prod.splits)

lemma sample_from_length:
  "sample_from clock k cs lst w = (outs, lst', w') \<Longrightarrow> length outs = length cs"
proof (induction cs arbitrary: k lst w outs)
  case Nil
  then show ?case by simp
next
  case (Cons c cs)
  then show ?case by (auto split: prod.splits)
qed

lemma sample_from_outside:
  "sample_from clock k cs lst w = (outs, lst', w') \<Longrightarrow> m < k \<or> k + length cs \<le> m \<Longrightarrow> lst' m = lst m"
proof (induction cs arbitrary: k lst w outs)
  case Nil
  then show ?case by simp
next
  case (Cons c cs)
  from Cons.prems(1) obtain out l w1 outs1 where
    sc: "sample_command clock c (lst k) w = (out, l, w1)"
    and sf: "sample_from clock (Suc k) cs (lst(k := l)) w1 = (outs1, lst', w')"
    by (auto split: prod.splits)
  from Cons.prems(2) have "m < Suc k \<or> Suc k + length cs \<le> m" by auto
  from Cons.IH [OF sf this] have "lst' m = (lst(k := l)) m" .
  moreover from Cons.prems(2) have "m \<noteq> k" by auto
  ultimately show ?case by simp
qed

lemma sample_from_append:
  "sample_from clock k (xs @ ys) lst w =
     (case sample_from clock k xs lst w of
        (o1, l1, w1) \<Rightarrow>
          (case sample_from clock (k + length xs) ys l1 w1 of
             (o2, l2, w2) \<Rightarrow> (o1 @ o2, l2, w2)))"
  by (induction xs arbitrary: k lst w) (auto split: prod.splits)

text \<open>The command at position j of a sample, seen from the state just before it.\<close>

lemma sample_from_nth:
  assumes "sample_from clock k cs lst w = (outs, lst', w')" and "j < length cs"
    and "sample_from clock k (take j cs) lst w = (o1, l1, w1)"
  shows "sample_command clock (cs ! j) (lst (k + j)) w1
           = (outs ! j, lst' (k + j),
              snd (snd (sample_from clock k (take (Suc j) cs) lst w)))"
proof -
  define xs where "xs = take j cs"
  define c where "c = cs ! j"
  define ys where "ys = drop (Suc j) cs"
  have split: "cs = xs @ c # ys"
    using assms(2) by (simp add: xs_def c_def ys_def id_take_nth_drop)
  have lj: "length xs = j" using assms(2) by (simp add: xs_def)
  have pre: "sample_from clock k xs lst w = (o1, l1, w1)"
    using assms(3) by (simp add: xs_def)
  obtain out l w2 where sc: "sample_command clock c (l1 (k + j)) w1 = (out, l, w2)"
    by (metis prod_cases3)
  obtain o3 l3 w3 where
    sf3: "sample_from clock (Suc (k + j)) ys (l1(k + j := l)) w2 = (o3, l3, w3)"
    by (metis prod_cases3)
  have "sample_from clock k (xs @ c # ys) lst w = (o1 @ out # o3, l3, w3)"
    by (simp add: sample_from_append pre lj sc sf3)
  with assms(1) split have outs: "outs = o1 @ out # o3" and l3: "lst' = l3" by simp_all
  have lo1: "length o1 = j" using sample_from_length [OF pre] lj by simp
  have a: "outs ! j = out" using outs lo1 by (simp add: nth_append)
  have "l3 (k + j) = (l1(k + j := l)) (k + j)"
    using sample_from_outside [OF sf3, of "k + j"] by simp
  then have b: "lst' (k + j) = l" using l3 by simp
  have c: "l1 (k + j) = lst (k + j)"
    using sample_from_outside [OF pre, of "k + j"] lj by simp
  have "take (Suc j) cs = xs @ [c]"
    using assms(2) by (simp add: xs_def c_def take_Suc_conv_app_nth)
  then have d: "snd (snd (sample_from clock k (take (Suc j) cs) lst w)) = w2"
    by (simp add: sample_from_append pre lj sc)
  show ?thesis using sc a b c d by (simp add: c_def)
qed


lemma Tick_fields:
  assumes "Tick t w = (outs, t', w')"
  shows "Commands t' = Commands t" and "NowFunc t' = NowFunc t"
    and "length outs = length (Commands t)"
  using assms sample_from_length
  by (auto simp: Tick_def split: prod.splits)

lemma Tick_nth:
  assumes "Tick t w = (outs, t', w')" and "k < length (Commands t)"
  shows "sample_command (NowFunc t) (Commands t ! k) (lastObserved t k) (world_before t k w)
           = (outs ! k, lastObserved t' k, world_before t (Suc k) w)"
proof -
  obtain lst' where sf: "sample_from (NowFunc t) 0 (Commands t) (lastObserved t) w = (outs, lst', w')"
    and t': "t' = t\<lparr>lastObserved := lst'\<rparr>"
    using assms(1) by (auto simp: Tick_def split: prod.splits)
  obtain o1 l1 w1 where
    pre: "sample_from (NowFunc t) 0 (take k (Commands t)) (lastObserved t) w = (o1, l1, w1)"
    by (metis prod_cases3)
  have "world_before t k w = w1" by (simp add: world_before_def pre)
  with sample_from_nth [OF sf assms(2) pre] t' show ?thesis
    by (simp add: world_before_def)
qed

lemma Tick_outcome:
  assumes "Tick t w = (outs, t', w')" and "k < length (Commands t)"
  shows "observed (outs ! k) = NowFunc t (world_before t k w)"
    and "step_index (outs ! k) = observed (outs ! k) div Step (Commands t ! k)"
    and "lastObserved t' k = Some (step_index (outs ! k))"
    and "(invoked (outs ! k) \<noteq> None) = (lastObserved t k \<noteq> Some (step_index (outs ! k)))"
  using sample_command_outcome(1-4) [OF Tick_nth [OF assms]] by simp_all

lemma Tick_invoked:
  assumes "Tick t w = (outs, t', w')" and "k < length (Commands t)"
    and "invoked (outs ! k) \<noteq> None"
  shows "invoked (outs ! k) =
           Some (step_index (outs ! k) mod (Interval (Commands t ! k) div Step (Commands t ! k)),
                 Interval (Commands t ! k) div Step (Commands t ! k),
                 fst (Handler (Commands t ! k)
                       (step_index (outs ! k) mod (Interval (Commands t ! k) div Step (Commands t ! k)))
                       (Interval (Commands t ! k) div Step (Commands t ! k)) (world_before t k w)))"
    and "world_before t (Suc k) w =
           snd (Handler (Commands t ! k)
                 (step_index (outs ! k) mod (Interval (Commands t ! k) div Step (Commands t ! k)))
                 (Interval (Commands t ! k) div Step (Commands t ! k)) (world_before t k w))"
  using sample_command_outcome(6) [OF Tick_nth [OF assms(1,2)] assms(3)] by simp_all


lemma Tick_split: "Tick t w = (Tick_outcomes t w, Tick_ticker t w, snd (snd (Tick t w)))"
  by (simp add: Tick_outcomes_def Tick_ticker_def)

text \<open>
  C2. For a ticker whose commands satisfy the invariant on their durations, the first
  sample of a command (no step index observed yet for it) invokes its effect once: the
  outcome for that command carries the arguments \<open>i = stepIndex mod n\<close> and
  \<open>n = interval / step\<close>, with the step index computed from the clock as read just
  before that command; the world after that command is the world the one call of the
  effect returns; and that step index is recorded as the last observed one.
\<close>

theorem cold_start_fires:
  assumes "list_all valid_command (Commands t)" and "k < length (Commands t)"
    and "lastObserved t k = None"
  shows "let c = Commands t ! k;
             wk = world_before t k w;
             s = NowFunc t wk div Step c;
             n = Interval c div Step c
         in invoked (Tick_outcomes t w ! k) = Some (s mod n, n, fst (Handler c (s mod n) n wk))
            \<and> world_before t (Suc k) w = snd (Handler c (s mod n) n wk)
            \<and> lastObserved (Tick_ticker t w) k = Some s"
proof -
  note T = Tick_split [of t w]
  note o = Tick_outcome [OF T assms(2)]
  from o(4) assms(3) have inv: "invoked (Tick_outcomes t w ! k) \<noteq> None" by simp
  have s: "step_index (Tick_outcomes t w ! k)
         = NowFunc t (world_before t k w) div Step (Commands t ! k)"
    using o(1,2) by simp
  show ?thesis
    using Tick_invoked [OF T assms(2) inv] o(3) s by (simp add: Let_def)
qed

theorem cold_start_fires_witness:
  "list_all valid_command (Commands two_ticker)
   \<and> lastObserved two_ticker 1 = None
   \<and> invoked (Tick_outcomes two_ticker test_start ! 1) = Some (0, 15, None)
   \<and> stepN (world_before two_ticker 2 test_start) = 1
   \<and> lastObserved (Tick_ticker two_ticker test_start) 1 = Some 15778080"
proof -
  have v: "list_all valid_command (Commands two_ticker)" by code_simp
  have k: "1 < length (Commands two_ticker)" by code_simp
  have l: "lastObserved two_ticker 1 = None" by code_simp
  have s: "NowFunc two_ticker (world_before two_ticker 1 test_start)
             div Step (Commands two_ticker ! 1) = 15778080" by code_simp
  have n: "Interval (Commands two_ticker ! 1) div Step (Commands two_ticker ! 1) = 15"
    by code_simp
  have r: "fst (Handler (Commands two_ticker ! 1) 0 15 (world_before two_ticker 1 test_start)) = None"
    by code_simp
  have c: "stepN (snd (Handler (Commands two_ticker ! 1) 0 15 (world_before two_ticker 1 test_start))) = 1"
    by code_simp
  from cold_start_fires [OF v k l, of test_start, unfolded Let_def s n]
  show ?thesis using v l r c by (simp add: numeral_2_eq_2)
qed






lemma Tick_split3: "Tick t w = (Tick_outcomes t w, Tick_ticker t w, Tick_world t w)"
  by (simp add: Tick_outcomes_def Tick_ticker_def Tick_world_def)

lemma run_outcomes_Nil: "run_outcomes t [] w = []"
  by (simp add: run_outcomes_def)

lemma run_outcomes_Cons:
  "run_outcomes t (f # fs) w
     = Tick_outcomes t (f w) # run_outcomes (Tick_ticker t (f w)) fs (Tick_world t (f w))"
  by (simp add: run_outcomes_def Tick_split3 split: prod.splits)

lemma run_ticker_Nil: "run_ticker t [] w = t"
  by (simp add: run_ticker_def)

lemma run_ticker_Cons:
  "run_ticker t (f # fs) w = run_ticker (Tick_ticker t (f w)) fs (Tick_world t (f w))"
  by (simp add: run_ticker_def Tick_split3 split: prod.splits)

lemma history_Nil: "history t [] w k = []"
  by (simp add: history_def run_outcomes_Nil)

lemma history_Cons:
  "history t (f # fs) w k
     = Tick_outcomes t (f w) ! k # history (Tick_ticker t (f w)) fs (Tick_world t (f w)) k"
  by (simp add: history_def run_outcomes_Cons)

lemma history_length: "length (history t fs w k) = length fs"
  by (induction fs arbitrary: t w) (simp_all add: history_Nil history_Cons)

lemma history_take: "history t (take m fs) w k = take m (history t fs w k)"
proof (induction fs arbitrary: t w m)
  case Nil
  then show ?case by (simp add: history_Nil)
next
  case (Cons f fs)
  then show ?case by (cases m) (simp_all add: history_Nil history_Cons)
qed



lemma run_steps:
  "k < length (Commands t) \<Longrightarrow> out \<in> set (history t fs w k) \<Longrightarrow>
     step_index out = observed out div Step (Commands t ! k)"
proof (induction fs arbitrary: t w)
  case Nil
  then show ?case by (simp add: history_Nil)
next
  case (Cons f fs)
  note T = Tick_split3 [of t "f w"]
  have c: "Commands (Tick_ticker t (f w)) = Commands t"
    by (rule Tick_fields(1) [OF T])
  from Cons.prems(2) consider "out = Tick_outcomes t (f w) ! k"
    | "out \<in> set (history (Tick_ticker t (f w)) fs (Tick_world t (f w)) k)"
    by (auto simp: history_Cons)
  then show ?case
  proof cases
    case 1
    then show ?thesis using Tick_outcome(2) [OF T Cons.prems(1)] by simp
  next
    case 2
    then show ?thesis using Cons.IH [of "Tick_ticker t (f w)" "Tick_world t (f w)"] c Cons.prems(1)
      by simp
  qed
qed

lemma run_last:
  "k < length (Commands t) \<Longrightarrow> fs \<noteq> [] \<Longrightarrow>
     lastObserved (run_ticker t fs w) k = Some (step_index (last (history t fs w k)))"
proof (induction fs arbitrary: t w)
  case Nil
  then show ?case by simp
next
  case (Cons f fs)
  note T = Tick_split3 [of t "f w"]
  have k': "k < length (Commands (Tick_ticker t (f w)))"
    using Tick_fields(1) [OF T] Cons.prems(1) by simp
  show ?case
  proof (cases "fs = []")
    case True
    then show ?thesis
      using Tick_outcome(3) [OF T Cons.prems(1)]
      by (simp add: run_ticker_Cons run_ticker_Nil history_Cons history_Nil)
  next
    case False
    then have "history (Tick_ticker t (f w)) fs (Tick_world t (f w)) k \<noteq> []"
      using history_length [of "Tick_ticker t (f w)" fs "Tick_world t (f w)" k] by auto
    then show ?thesis
      using Cons.IH [OF k' False, of "Tick_world t (f w)"]
      by (simp add: run_ticker_Cons history_Cons)
  qed
qed





lemma sorted_steps:
  assumes "0 < d" and "sorted (map observed h)" and "\<forall>out \<in> set h. step_index out = observed out div d"
  shows "sorted (map step_index h)"
  using assms
proof (induction h)
  case Nil
  then show ?case by simp
next
  case (Cons out h)
  have "step_index out \<le> step_index o'" if "o' \<in> set h" for o'
  proof -
    have "observed out \<le> observed o'" using Cons.prems(2) that by auto
    then have "observed out div d \<le> observed o' div d"
      using Cons.prems(1) by (rule zdiv_mono1)
    then show ?thesis using Cons.prems(3) that by simp
  qed
  moreover have "sorted (map step_index h)"
    using Cons by simp
  ultimately show ?case by auto
qed

text \<open>
  C7. Over a run of samples of a ticker with valid commands, if the clock readings taken
  for the command at position \<open>k\<close> never decrease, then its last observed step index,
  which is set from the first sample on, never decreases either: after \<open>a\<close> samples it is
  at most what it is after \<open>b \<ge> a\<close> samples.
\<close>

theorem last_observed_monotone:
  assumes "list_all valid_command (Commands t)" and "k < length (Commands t)"
    and "sorted (map observed (history t fs w k))"
    and "0 < a" and "a \<le> b" and "b \<le> length fs"
  shows "\<exists>x y. lastObserved (run_ticker t (take a fs) w) k = Some x
               \<and> lastObserved (run_ticker t (take b fs) w) k = Some y
               \<and> x \<le> y"
proof -
  let ?h = "history t fs w k"
  have v: "0 < Step (Commands t ! k)"
    using assms(1,2) by (simp add: list_all_length valid_command_def)
  have steps: "\<forall>out \<in> set ?h. step_index out = observed out div Step (Commands t ! k)"
    using run_steps [OF assms(2)] by blast
  have srt: "sorted (map step_index ?h)"
    by (rule sorted_steps [OF v assms(3) steps])
  have len: "length ?h = length fs" by (rule history_length)
  have at: "lastObserved (run_ticker t (take m fs) w) k = Some (step_index (?h ! (m - 1)))"
    if "0 < m" and "m \<le> length fs" for m
  proof -
    have ne: "take m fs \<noteq> []" using that by auto
    have "take m ?h \<noteq> []" using that len by auto
    then have "last (take m ?h) = ?h ! (m - 1)"
      using that len by (simp add: last_conv_nth min_absorb2)
    then show ?thesis
      using run_last [OF assms(2) ne, of w] by (simp add: history_take)
  qed
  have "a - 1 \<le> b - 1" and "b - 1 < length (map step_index ?h)"
    using assms(4,5,6) len by auto
  then have "map step_index ?h ! (a - 1) \<le> map step_index ?h ! (b - 1)"
    using srt sorted_nth_mono by blast
  then have "step_index (?h ! (a - 1)) \<le> step_index (?h ! (b - 1))"
    using assms(4,5,6) len by simp
  moreover have "0 < b" "a \<le> length fs" using assms(4,5,6) by auto
  ultimately show ?thesis using at [of a] at [of b] assms(4,6) by simp
qed

theorem last_observed_monotone_witness:
  "sorted (map observed (history two_ticker twenty_seconds test_start 1))
   \<and> lastObserved (run_ticker two_ticker (take 2 twenty_seconds) test_start) 1 = Some 15778080
   \<and> lastObserved (run_ticker two_ticker (take 3 twenty_seconds) test_start) 1 = Some 15778081"
proof -
  have v: "list_all valid_command (Commands two_ticker)" by code_simp
  have k: "1 < length (Commands two_ticker)" by code_simp
  have s: "sorted (map observed (history two_ticker twenty_seconds test_start 1))" by code_simp
  have b: "3 \<le> length twenty_seconds" by code_simp
  have x: "lastObserved (run_ticker two_ticker (take 2 twenty_seconds) test_start) 1 = Some 15778080"
    by code_simp
  have y: "lastObserved (run_ticker two_ticker (take 3 twenty_seconds) test_start) 1 = Some 15778081"
    by code_simp
  from last_observed_monotone [OF v k s, of 2 3] b s x y show ?thesis by simp
qed




section \<open>Properties of NewTicker\<close>

lemma hex_color_iff: "hex_color s \<longleftrightarrow> (\<exists>ds. six_hex ds \<and> (s = ds \<or> s = CHR ''#'' # ds))"
  by (cases s) (auto simp: hex_color_def)

lemma ParseColor_error: "(snd (ParseColor s) = None) = hex_color s"
proof (cases "hex_color s")
  case True
  then obtain ds where "six_hex ds" and "s = ds \<or> s = CHR ''#'' # ds"
    unfolding hex_color_iff by blast
  from ParseColor_ok [OF this] True show ?thesis by simp
next
  case False
  then have "\<nexists>ds. six_hex ds \<and> (s = ds \<or> s = CHR ''#'' # ds)"
    unfolding hex_color_iff by blast
  from ParseColor_fail [OF this] False show ?thesis by simp
qed

text \<open>
  C5, as amended. \<open>NewTicker\<close>, where the program registers its command, checks neither
  the step nor the interval. It fails exactly when the wallpaper command is enabled and
  its foreground or its background colour is not an optional \<open>#\<close> followed by six
  hexadecimal digits. When it succeeds the ticker is a new ticker to which the command,
  if enabled, has been appended with the step and the interval of the configuration as
  they are; nothing else is changed.
\<close>

theorem NewTicker_registers_unchecked:
  "isl (NewTicker pf time_Now gen c exec)
     = (Wallpaper_Enabled c
        \<and> \<not> (hex_color (Wallpaper_Foreground c) \<and> hex_color (Wallpaper_Background c)))
   \<and> (\<not> isl (NewTicker pf time_Now gen c exec) \<longrightarrow>
        NowFunc (projr (NewTicker pf time_Now gen c exec)) = time_Now
        \<and> lastObserved (projr (NewTicker pf time_Now gen c exec)) = (\<lambda>k. None)
        \<and> map Name (Commands (projr (NewTicker pf time_Now gen c exec)))
            = (if Wallpaper_Enabled c then [''wallpaper''] else [])
        \<and> map Step (Commands (projr (NewTicker pf time_Now gen c exec)))
            = (if Wallpaper_Enabled c then [Wallpaper_Step c] else [])
        \<and> map Interval (Commands (projr (NewTicker pf time_Now gen c exec)))
            = (if Wallpaper_Enabled c then [Wallpaper_Interval c] else []))"
proof (cases "Wallpaper_Enabled c")
  case False
  then show ?thesis by (simp add: NewTicker_def boxer_NewTicker_def)
next
  case True
  note fg = ParseColor_error [of "Wallpaper_Foreground c"]
  note bg = ParseColor_error [of "Wallpaper_Background c"]
  show ?thesis
  proof (cases "hex_color (Wallpaper_Foreground c)")
    case False
    with fg True show ?thesis
      by (auto simp: NewTicker_def Let_def split: prod.splits option.splits)
  next
    case fgok: True
    show ?thesis
    proof (cases "hex_color (Wallpaper_Background c)")
      case False
      with fg bg True fgok show ?thesis
        by (auto simp: NewTicker_def Let_def split: prod.splits option.splits)
    next
      case bgok: True
      with fg bg True fgok show ?thesis
        by (auto simp: NewTicker_def Let_def boxer_NewTicker_def split: prod.splits option.splits)
    qed
  qed
qed

theorem NewTicker_registers_unchecked_witness:
  "\<not> isl (NewTicker desk_platform desk_clock desk_NewWallpaperGenerator seven_fifteen desk_exec)
   \<and> map Step (Commands (projr (NewTicker desk_platform desk_clock desk_NewWallpaperGenerator
        seven_fifteen desk_exec))) = [7 * Second]
   \<and> isl (NewTicker desk_platform desk_clock desk_NewWallpaperGenerator black_background desk_exec)"
proof -
  have a: "Wallpaper_Enabled seven_fifteen" "hex_color (Wallpaper_Foreground seven_fifteen)"
    "hex_color (Wallpaper_Background seven_fifteen)" "Wallpaper_Step seven_fifteen = 7 * Second"
    by code_simp+
  have b: "Wallpaper_Enabled black_background"
    "\<not> hex_color (Wallpaper_Background black_background)"
    by code_simp+
  from NewTicker_registers_unchecked [of desk_platform desk_clock desk_NewWallpaperGenerator
      seven_fifteen desk_exec]
    NewTicker_registers_unchecked [of desk_platform desk_clock desk_NewWallpaperGenerator
      black_background desk_exec]
    a b
  show ?thesis by simp
qed

text \<open>
  C5, as stated, fails: a step of seven seconds with an interval of fifteen seconds is
  registered without an error, although fifteen is not a multiple of seven, and the
  first sample invokes the command with \<open>n = 2\<close>.
\<close>

theorem registration_unchecked_counterexample:
  "\<not> isl seven_fifteen_ticker
   \<and> map Step (Commands (projr seven_fifteen_ticker)) = [7 * Second]
   \<and> map Interval (Commands (projr seven_fifteen_ticker)) = [15 * Second]
   \<and> \<not> list_all valid_command (Commands (projr seven_fifteen_ticker))
   \<and> fst (snd (the (invoked (Tick_outcomes (projr seven_fifteen_ticker) empty_desk ! 0)))) = 2"
  by code_simp

end
